theory Spec2Isabelle
  imports Main
begin

section \<open>Data model of \<open>kafka/server/partition_proxy.cc\<close>\<close>

text \<open>
  Modelled from the spec: \<open>model::ktp\<close> is declared in a header that is not part of this source file.
  The spec describes the identifier as an immutable value made of a namespace, a topic
  name and a partition index, compared field by field. The index is an unbounded
  integer here, so that ill-formed (negative) indices are values of the type too.
\<close>

record ktp =
  ktp_ns :: string
  ktp_topic :: string
  ktp_partition :: int

text \<open>
  The handle \<open>ss::lw_shared_ptr<cluster::partition>\<close> that \<open>cluster_pm.get\<close> returns:
  either the null pointer or a reference to one live partition object, named by a number.
  \<open>if (partition)\<close> in the source tests it against null.
\<close>

datatype partition_ptr = Nullptr | Partition nat

text \<open>
  The implementations of the capability interface \<open>partition_proxy::impl\<close> that this
  translation unit constructs. \<open>replicated_partition\<close> is built from one handle.
\<close>

datatype impl = Replicated_partition partition_ptr

text \<open>
  The free store on which \<open>std::make_unique\<close> allocates adapters: cell \<open>a\<close> of the list
  is the object at address \<open>a\<close>, \<open>None\<close> once it has been deleted. Addresses beyond the
  end of the list have never been handed out. \<open>cell\<close> reads an address (nothing lives
  beyond the end) and \<open>live_count\<close> counts the objects that have not been deleted.
\<close>

type_synonym addr = nat
type_synonym heap = "impl option list"

definition cell :: "heap \<Rightarrow> addr \<Rightarrow> impl option" where
  "cell h a = (if a < length h then h ! a else None)"

definition live_count :: "heap \<Rightarrow> nat" where
  "live_count h = length (filter (\<lambda>c. c \<noteq> None) h)"

text \<open>
  Modelled from the spec: the class \<open>partition_proxy\<close> is declared in
  \<open>partition_proxy.h\<close>, not in this source file. It is the exclusive owner of one adapter
  through a \<open>std::unique_ptr<impl>\<close>, which as a C++ type may hold the null pointer
  (\<open>None\<close>) or the address of the adapter it owns.
\<close>

datatype partition_proxy = Partition_proxy (impl_ptr: "addr option")

definition adapter_of :: "heap \<Rightarrow> partition_proxy \<Rightarrow> impl option" where
  "adapter_of h p = (case impl_ptr p of None \<Rightarrow> None | Some a \<Rightarrow> cell h a)"

text \<open>
  Modelled from the spec: destruction of a proxy (section 4.2: destruction releases the
  adapter). The owning pointer deletes the adapter it points to; deleting through a null
  pointer does nothing.
\<close>

definition destroy :: "partition_proxy \<Rightarrow> heap \<Rightarrow> heap" where
  "destroy p h =
     (case impl_ptr p of
        None \<Rightarrow> h
      | Some a \<Rightarrow> if a < length h then h[a := None] else h)"

section \<open>The factory\<close>

text \<open>
  \<open>std::make_unique<Impl>(args)\<close>: constructs the object in a cell that no earlier
  allocation has used and returns its address, which is never null. The free store is
  unbounded: an allocation that fails with \<open>std::bad_alloc\<close> is not modelled.
\<close>

definition make_unique :: "impl \<Rightarrow> heap \<Rightarrow> addr \<times> heap" where
  "make_unique v h = (length h, h @ [Some v])"

text \<open>
  \<open>make_with_impl<Impl>(args...)\<close>: the template parameter \<open>Impl\<close> is the constructor
  of the chosen implementation, applied to the forwarded arguments.
\<close>

definition make_with_impl :: "('args \<Rightarrow> impl) \<Rightarrow> 'args \<Rightarrow> heap \<Rightarrow> partition_proxy \<times> heap" where
  "make_with_impl Impl args h =
     (case make_unique (Impl args) h of
        (a, h') \<Rightarrow> (Partition_proxy (Some a), h'))"

text \<open>
  \<open>make_partition_proxy(ktp, cluster_pm)\<close>. The class \<open>cluster::partition_manager\<close> is
  not part of this source file, so its member \<open>get\<close> is a parameter: given the identifier and
  the state of the registry it yields the new state of the registry and either a handle
  (\<open>Inr\<close>) or the exception it raised (\<open>Inl\<close>). The source has no handler around the
  call, so an exception leaves \<open>make_partition_proxy\<close> at once.
\<close>

definition make_partition_proxy ::
  "(ktp \<Rightarrow> 'pm \<Rightarrow> ('e + partition_ptr) \<times> 'pm) \<Rightarrow> ktp \<Rightarrow> 'pm \<Rightarrow> heap
     \<Rightarrow> ('e + partition_proxy option) \<times> 'pm \<times> heap" where
  "make_partition_proxy get ktp cluster_pm h =
     (case get ktp cluster_pm of
        (Inl e, pm') \<Rightarrow> (Inl e, pm', h)
      | (Inr partition', pm') \<Rightarrow>
          if partition' \<noteq> Nullptr then
            (case make_with_impl Replicated_partition partition' h of
               (p, h') \<Rightarrow> (Inr (Some p), pm', h'))
          else (Inr None, pm', h))"

section \<open>A registry to run the factory against\<close>

text \<open>
  Modelled from the spec: the partition registry (\<open>cluster::partition_manager\<close>, declared
  elsewhere) as section 6 of the specification describes it: a table from identifiers to live partitions,
  whose lookup answers with the handle of the partition, or with no handle when the
  identifier is not hosted here. The lookup leaves the table as it is.
\<close>

type_synonym partition_manager = "(ktp \<times> nat) list"

definition pm_get :: "ktp \<Rightarrow> partition_manager \<Rightarrow> (string + partition_ptr) \<times> partition_manager" where
  "pm_get k pm =
     (case map_of pm k of
        None \<Rightarrow> (Inr Nullptr, pm)
      | Some n \<Rightarrow> (Inr (Partition n), pm))"

text \<open>
  Modelled from the spec: a registry whose lookup raises an internal fault instead of
  answering (section 4.1, failure semantics).
\<close>

definition pm_get_faulty :: "string \<Rightarrow> ktp \<Rightarrow> partition_manager \<Rightarrow> (string + partition_ptr) \<times> partition_manager" where
  "pm_get_faulty e k pm = (Inl e, pm)"

text \<open>
  A probe around any lookup: it behaves as the lookup does and also appends each
  identifier it is called with to a log, so that the calls a client makes can be read
  off the final state.
\<close>

definition recording ::
  "(ktp \<Rightarrow> 'pm \<Rightarrow> ('e + partition_ptr) \<times> 'pm) \<Rightarrow> ktp \<Rightarrow> ktp list \<times> 'pm
     \<Rightarrow> ('e + partition_ptr) \<times> (ktp list \<times> 'pm)" where
  "recording get k s =
     (case get k (snd s) of
        (r, pm') \<Rightarrow> (r, (fst s @ [k], pm')))"

text \<open>The identifiers and the registry of the scenarios in section 8 of the specification.\<close>

definition orders_3 :: ktp where
  "orders_3 = \<lparr>ktp_ns = ''ns'', ktp_topic = ''orders'', ktp_partition = 3\<rparr>"

definition orders_4 :: ktp where
  "orders_4 = \<lparr>ktp_ns = ''ns'', ktp_topic = ''orders'', ktp_partition = 4\<rparr>"

definition scenario_pm :: partition_manager where
  "scenario_pm = [(orders_3, 7)]"

section \<open>What a caller observes of a resolution\<close>

text \<open>
  The outcome of a call as its caller sees it: the exception that left the call, an
  empty optional, or a proxy together with what its owning pointer leads to in the free
  store after the call.
\<close>

datatype 'e outcome = Raised 'e | Absent | Proxy_over "impl option"

definition outcome :: "('e + partition_proxy option) \<times> 'pm \<times> heap \<Rightarrow> 'e outcome" where
  "outcome r =
     (case fst r of
        Inl e \<Rightarrow> Raised e
      | Inr None \<Rightarrow> Absent
      | Inr (Some p) \<Rightarrow> Proxy_over (adapter_of (snd (snd r)) p))"

section \<open>Facts about the free store\<close>

lemma cell_make_unique_new: "cell (snd (make_unique v h)) (fst (make_unique v h)) = Some v"
  by (simp add: cell_def make_unique_def)

lemma cell_make_unique_old:
  "a \<noteq> fst (make_unique v h) \<Longrightarrow> cell (snd (make_unique v h)) a = cell h a"
  by (auto simp add: cell_def make_unique_def nth_append)

lemma cell_make_unique_fresh: "cell h (fst (make_unique v h)) = None"
  by (simp add: cell_def make_unique_def)

lemma make_with_impl_eq:
  "make_with_impl Impl args h =
     (Partition_proxy (Some (fst (make_unique (Impl args) h))), snd (make_unique (Impl args) h))"
  by (simp add: make_with_impl_def split: prod.split)

lemma make_partition_proxy_found:
  assumes "get k pm = (Inr (Partition n), pm')"
  shows "make_partition_proxy get k pm h =
           (Inr (Some (Partition_proxy (Some (fst (make_unique (Replicated_partition (Partition n)) h))))),
            pm', snd (make_unique (Replicated_partition (Partition n)) h))"
  using assms by (simp add: make_partition_proxy_def make_with_impl_eq)

section \<open>Resolution of a known identifier\<close>

text \<open>
  C1. For every identifier and every state of the registry in which the lookup returns
  a (non-null) handle, \<open>make_partition_proxy\<close> returns an engaged optional. The proxy in
  it points to a cell that was not in use before the call, no proxy with a live adapter
  before the call points there, the cell now holds an adapter built around that very
  handle, and every other cell of the free store is as it was: exactly one adapter was
  constructed.
\<close>

theorem resolve_found_owns_new_adapter:
  assumes "get k pm = (Inr (Partition n), pm')"
  shows "\<exists>a h'. make_partition_proxy get k pm h = (Inr (Some (Partition_proxy (Some a))), pm', h')
           \<and> cell h a = None
           \<and> (\<forall>q. adapter_of h q \<noteq> None \<longrightarrow> impl_ptr q \<noteq> Some a)
           \<and> cell h' a = Some (Replicated_partition (Partition n))
           \<and> (\<forall>b. b \<noteq> a \<longrightarrow> cell h' b = cell h b)"
proof -
  let ?v = "Replicated_partition (Partition n)"
  let ?a = "fst (make_unique ?v h)"
  let ?h' = "snd (make_unique ?v h)"
  have run: "make_partition_proxy get k pm h = (Inr (Some (Partition_proxy (Some ?a))), pm', ?h')"
    using assms by (rule make_partition_proxy_found)
  have fresh: "cell h ?a = None"
    by (rule cell_make_unique_fresh)
  have excl: "\<forall>q. adapter_of h q \<noteq> None \<longrightarrow> impl_ptr q \<noteq> Some ?a"
    using fresh by (auto simp add: adapter_of_def split: option.splits)
  have new: "cell ?h' ?a = Some ?v"
    by (rule cell_make_unique_new)
  have old: "\<forall>b. b \<noteq> ?a \<longrightarrow> cell ?h' b = cell h b"
    by (simp add: cell_make_unique_old)
  from run fresh excl new old show ?thesis by blast
qed

theorem resolve_found_owns_new_adapter_witness:
  "pm_get orders_3 scenario_pm = (Inr (Partition 7), scenario_pm)
   \<and> (\<exists>a h'. make_partition_proxy pm_get orders_3 scenario_pm [Some (Replicated_partition (Partition 2))]
                 = (Inr (Some (Partition_proxy (Some a))), scenario_pm, h')
          \<and> adapter_of [Some (Replicated_partition (Partition 2))] (Partition_proxy (Some 0)) \<noteq> None
          \<and> impl_ptr (Partition_proxy (Some 0)) \<noteq> Some a
          \<and> cell h' 0 = cell [Some (Replicated_partition (Partition 2))] 0
          \<and> cell h' a = Some (Replicated_partition (Partition 7)))"
proof -
  let ?h = "[Some (Replicated_partition (Partition 2))]"
  let ?q = "Partition_proxy (Some 0)"
  have g: "pm_get orders_3 scenario_pm = (Inr (Partition 7), scenario_pm)"
    by (simp add: pm_get_def scenario_pm_def)
  have q: "adapter_of ?h ?q \<noteq> None"
    by (simp add: adapter_of_def cell_def)
  from resolve_found_owns_new_adapter
         [where get = pm_get and k = orders_3 and pm = scenario_pm and h = ?h, OF g]
  obtain a h' where r:
    "make_partition_proxy pm_get orders_3 scenario_pm ?h
       = (Inr (Some (Partition_proxy (Some a))), scenario_pm, h')"
    "\<forall>q. adapter_of ?h q \<noteq> None \<longrightarrow> impl_ptr q \<noteq> Some a"
    "cell h' a = Some (Replicated_partition (Partition 7))"
    "\<forall>b. b \<noteq> a \<longrightarrow> cell h' b = cell ?h b"
    by blast
  from r(2) q have ne: "impl_ptr ?q \<noteq> Some a" by blast
  then have "0 \<noteq> a" by auto
  with r(4) have "cell h' 0 = cell ?h 0" by blast
  with g q r(1) r(3) ne show ?thesis by blast
qed

section \<open>The three replies of the lookup\<close>

lemma make_partition_proxy_eq:
  "make_partition_proxy get k pm h =
     (case fst (get k pm) of
        Inl e \<Rightarrow> (Inl e, snd (get k pm), h)
      | Inr Nullptr \<Rightarrow> (Inr None, snd (get k pm), h)
      | Inr (Partition n) \<Rightarrow>
          (Inr (Some (Partition_proxy (Some (length h)))), snd (get k pm),
           h @ [Some (Replicated_partition (Partition n))]))"
  by (simp add: make_partition_proxy_def make_with_impl_def make_unique_def
           split: prod.split sum.split partition_ptr.split)

lemma adapter_of_new_cell:
  "adapter_of (h @ [Some v]) (Partition_proxy (Some (length h))) = Some v"
  by (simp add: adapter_of_def cell_def)

lemma live_count_append: "live_count (h @ [Some v]) = Suc (live_count h)"
  by (simp add: live_count_def)

section \<open>Resolution of an unknown identifier\<close>

text \<open>
  C2. For every identifier for which the lookup of the registry reports no partition
  (it returns the null handle), \<open>make_partition_proxy\<close> returns the empty optional:
  not an exception, and not a proxy of any kind. No adapter is constructed, and the
  registry is left in the state in which its own lookup left it.
\<close>

theorem resolve_unknown_is_empty:
  assumes "fst (get k pm) = Inr Nullptr"
  shows "fst (make_partition_proxy get k pm h) = Inr None
         \<and> (\<forall>p. fst (make_partition_proxy get k pm h) \<noteq> Inr (Some p))
         \<and> (\<forall>e. fst (make_partition_proxy get k pm h) \<noteq> Inl e)
         \<and> snd (make_partition_proxy get k pm h) = (snd (get k pm), h)"
  using assms by (simp add: make_partition_proxy_eq)

theorem resolve_unknown_is_empty_witness:
  "fst (pm_get orders_4 scenario_pm) = Inr Nullptr
   \<and> make_partition_proxy pm_get orders_4 scenario_pm [] = (Inr None, scenario_pm, [])"
proof -
  have g: "fst (pm_get orders_4 scenario_pm) = Inr Nullptr"
    by (simp add: pm_get_def scenario_pm_def orders_3_def orders_4_def)
  have s: "snd (pm_get orders_4 scenario_pm) = scenario_pm"
    by (simp add: pm_get_def split: option.split)
  from resolve_unknown_is_empty
         [where get = pm_get and k = orders_4 and pm = scenario_pm and h = "[]", OF g]
  have "fst (make_partition_proxy pm_get orders_4 scenario_pm []) = Inr None"
    and "snd (make_partition_proxy pm_get orders_4 scenario_pm []) = (scenario_pm, [])"
    by (simp_all add: s)
  then have "make_partition_proxy pm_get orders_4 scenario_pm [] = (Inr None, scenario_pm, [])"
    by (simp add: prod_eq_iff)
  with g show ?thesis by simp
qed

section \<open>Faults of the registry\<close>

text \<open>
  C3. For every identifier, if the lookup of the registry raises a fault instead of
  answering, \<open>make_partition_proxy\<close> ends with that same fault: the caller sees the
  exception unchanged, never an empty optional and never a proxy, and no adapter has
  been constructed.
\<close>

theorem resolve_propagates_fault:
  assumes "fst (get k pm) = Inl e"
  shows "fst (make_partition_proxy get k pm h) = Inl e
         \<and> fst (make_partition_proxy get k pm h) \<noteq> Inr None
         \<and> (\<forall>p. fst (make_partition_proxy get k pm h) \<noteq> Inr (Some p))
         \<and> snd (make_partition_proxy get k pm h) = (snd (get k pm), h)"
  using assms by (simp add: make_partition_proxy_eq)

theorem resolve_propagates_fault_witness:
  "fst (pm_get_faulty ''internal fault'' orders_3 scenario_pm) = Inl ''internal fault''
   \<and> fst (make_partition_proxy (pm_get_faulty ''internal fault'') orders_3 scenario_pm [])
       = Inl ''internal fault''"
proof -
  have g: "fst (pm_get_faulty ''internal fault'' orders_3 scenario_pm) = Inl ''internal fault''"
    by (simp add: pm_get_faulty_def)
  from resolve_propagates_fault
         [where get = "pm_get_faulty ''internal fault''" and k = orders_3 and pm = scenario_pm
            and h = "[]", OF g]
  have "fst (make_partition_proxy (pm_get_faulty ''internal fault'') orders_3 scenario_pm [])
          = Inl ''internal fault''"
    by simp
  with g show ?thesis by simp
qed

section \<open>The invariant of the proxies the factory returns\<close>

text \<open>
  C4. Every proxy that \<open>make_partition_proxy\<close> returns holds a non-null owning pointer
  that leads, in the free store after the call, to a constructed adapter; and a proxy
  is returned only when the registry answered with a non-null handle, which the adapter
  holds. So the absence of a partition never shows as a proxy with a null or dangling
  pointer: it shows as the empty optional only.
\<close>

theorem factory_proxy_holds_live_adapter:
  assumes "fst (make_partition_proxy get k pm h) = Inr (Some p)"
  shows "\<exists>a handle. impl_ptr p = Some a
           \<and> cell (snd (snd (make_partition_proxy get k pm h))) a = Some (Replicated_partition handle)
           \<and> adapter_of (snd (snd (make_partition_proxy get k pm h))) p = Some (Replicated_partition handle)
           \<and> fst (get k pm) = Inr handle
           \<and> handle \<noteq> Nullptr"
proof (cases "fst (get k pm)")
  case (Inl e)
  with assms show ?thesis by (simp add: make_partition_proxy_eq)
next
  case (Inr handle)
  show ?thesis
  proof (cases handle)
    case Nullptr
    with Inr assms show ?thesis by (simp add: make_partition_proxy_eq)
  next
    case (Partition n)
    with Inr assms have p: "p = Partition_proxy (Some (length h))"
      by (simp add: make_partition_proxy_eq)
    from Inr Partition have h': "snd (snd (make_partition_proxy get k pm h))
        = h @ [Some (Replicated_partition (Partition n))]"
      by (simp add: make_partition_proxy_eq)
    have "cell (h @ [Some (Replicated_partition (Partition n))]) (length h)
            = Some (Replicated_partition (Partition n))"
      by (simp add: cell_def)
    with p h' Inr Partition show ?thesis
      by (simp add: adapter_of_def)
  qed
qed

theorem factory_proxy_holds_live_adapter_witness:
  "fst (make_partition_proxy pm_get orders_3 scenario_pm []) = Inr (Some (Partition_proxy (Some 0)))
   \<and> (\<exists>a handle. impl_ptr (Partition_proxy (Some 0)) = Some a
         \<and> cell (snd (snd (make_partition_proxy pm_get orders_3 scenario_pm []))) a
             = Some (Replicated_partition handle)
         \<and> adapter_of (snd (snd (make_partition_proxy pm_get orders_3 scenario_pm [])))
             (Partition_proxy (Some 0)) = Some (Replicated_partition handle)
         \<and> fst (pm_get orders_3 scenario_pm) = Inr handle
         \<and> handle \<noteq> Nullptr)"
proof -
  have r: "fst (make_partition_proxy pm_get orders_3 scenario_pm [])
             = Inr (Some (Partition_proxy (Some 0)))"
    by (simp add: make_partition_proxy_eq pm_get_def scenario_pm_def)
  from r factory_proxy_holds_live_adapter
         [where get = pm_get and k = orders_3 and pm = scenario_pm and h = "[]", OF r]
  show ?thesis by (rule conjI)
qed

section \<open>The adapter that is constructed\<close>

text \<open>
  C5. On every successful resolution the factory constructs exactly one adapter: the
  free store after the call is the free store before it with one object added, the
  number of live adapters has grown by one, and the added object, which the proxy
  owns, is a \<open>replicated_partition\<close> around the handle the registry answered with.
  The adapter is the same function of the handle in every call.
\<close>

theorem resolve_constructs_one_replicated_partition:
  assumes "fst (make_partition_proxy get k pm h) = Inr (Some p)"
  shows "\<exists>handle. fst (get k pm) = Inr handle
           \<and> snd (snd (make_partition_proxy get k pm h)) = h @ [Some (Replicated_partition handle)]
           \<and> length (snd (snd (make_partition_proxy get k pm h))) = Suc (length h)
           \<and> live_count (snd (snd (make_partition_proxy get k pm h))) = Suc (live_count h)
           \<and> adapter_of (snd (snd (make_partition_proxy get k pm h))) p
               = Some (Replicated_partition handle)"
proof (cases "fst (get k pm)")
  case (Inl e)
  with assms show ?thesis by (simp add: make_partition_proxy_eq)
next
  case (Inr handle)
  show ?thesis
  proof (cases handle)
    case Nullptr
    with Inr assms show ?thesis by (simp add: make_partition_proxy_eq)
  next
    case (Partition n)
    with Inr assms have p: "p = Partition_proxy (Some (length h))"
      by (simp add: make_partition_proxy_eq)
    from Inr Partition have h': "snd (snd (make_partition_proxy get k pm h))
        = h @ [Some (Replicated_partition handle)]"
      by (simp add: make_partition_proxy_eq)
    show ?thesis
      using Inr unfolding h' p
      by (simp add: adapter_of_new_cell live_count_append)
  qed
qed

theorem resolve_constructs_one_replicated_partition_witness:
  "fst (make_partition_proxy pm_get orders_3 scenario_pm [None])
     = Inr (Some (Partition_proxy (Some 1)))
   \<and> snd (snd (make_partition_proxy pm_get orders_3 scenario_pm [None]))
       = [None, Some (Replicated_partition (Partition 7))]
   \<and> live_count (snd (snd (make_partition_proxy pm_get orders_3 scenario_pm [None]))) = 1"
proof -
  have g: "fst (pm_get orders_3 scenario_pm) = Inr (Partition 7)"
    by (simp add: pm_get_def scenario_pm_def)
  have r: "fst (make_partition_proxy pm_get orders_3 scenario_pm [None])
             = Inr (Some (Partition_proxy (Some 1)))"
    by (simp add: make_partition_proxy_eq g)
  from resolve_constructs_one_replicated_partition
         [where get = pm_get and k = orders_3 and pm = scenario_pm and h = "[None]", OF r]
  obtain handle where
    "fst (pm_get orders_3 scenario_pm) = Inr handle"
    "snd (snd (make_partition_proxy pm_get orders_3 scenario_pm [None]))
       = [None] @ [Some (Replicated_partition handle)]"
    "live_count (snd (snd (make_partition_proxy pm_get orders_3 scenario_pm [None])))
       = Suc (live_count [None])"
    by blast
  with g r show ?thesis by (simp add: live_count_def)
qed

section \<open>Statelessness and determinism\<close>

text \<open>
  C6. The factory keeps no state of its own. Take any two calls on the same identifier,
  against any two registries in any two states and with any two free stores, such that
  the two lookups give the same reply. Then the two calls have the same outcome: the
  same exception, or both the empty optional, or both a proxy over a live adapter
  around the same handle. A call has no effect but the effect of the lookup itself on
  the registry and the construction of the adapter it returns: the registry is left as
  the lookup left it, and the free store after the call is the free store before it
  when the call raised or returned the empty optional, and is the free store before it
  followed by the one adapter the returned proxy owns otherwise. Nothing else is
  allocated, deleted or overwritten.
\<close>

theorem resolve_deterministic_and_stateless:
  assumes "fst (get1 k pm1) = fst (get2 k pm2)"
  shows "outcome (make_partition_proxy get1 k pm1 h1) = outcome (make_partition_proxy get2 k pm2 h2)
         \<and> outcome (make_partition_proxy get1 k pm1 h1) \<noteq> Proxy_over None
         \<and> fst (snd (make_partition_proxy get1 k pm1 h1)) = snd (get1 k pm1)
         \<and> take (length h1) (snd (snd (make_partition_proxy get1 k pm1 h1))) = h1
         \<and> snd (snd (make_partition_proxy get1 k pm1 h1)) =
             (case outcome (make_partition_proxy get1 k pm1 h1) of
                Raised e \<Rightarrow> h1
              | Absent \<Rightarrow> h1
              | Proxy_over v \<Rightarrow> h1 @ [v])
         \<and> fst (snd (make_partition_proxy get2 k pm2 h2)) = snd (get2 k pm2)
         \<and> snd (snd (make_partition_proxy get2 k pm2 h2)) =
             (case outcome (make_partition_proxy get2 k pm2 h2) of
                Raised e \<Rightarrow> h2
              | Absent \<Rightarrow> h2
              | Proxy_over v \<Rightarrow> h2 @ [v])"
proof (cases "fst (get2 k pm2)")
  case (Inl e)
  with assms show ?thesis
    by (simp add: make_partition_proxy_eq outcome_def)
next
  case (Inr handle)
  with assms show ?thesis
    by (cases handle) (simp_all add: make_partition_proxy_eq outcome_def adapter_of_new_cell)
qed

theorem resolve_deterministic_and_stateless_witness:
  "fst (pm_get orders_3 scenario_pm) = fst (pm_get orders_3 [(orders_4, 1), (orders_3, 7)])
   \<and> outcome (make_partition_proxy pm_get orders_3 scenario_pm [])
       = Proxy_over (Some (Replicated_partition (Partition 7)))
   \<and> outcome (make_partition_proxy pm_get orders_3 [(orders_4, 1), (orders_3, 7)]
                 [None, Some (Replicated_partition (Partition 2))])
       = Proxy_over (Some (Replicated_partition (Partition 7)))
   \<and> snd (snd (make_partition_proxy pm_get orders_3 scenario_pm []))
       = [Some (Replicated_partition (Partition 7))]
   \<and> snd (snd (make_partition_proxy pm_get orders_3 [(orders_4, 1), (orders_3, 7)]
                   [None, Some (Replicated_partition (Partition 2))]))
       = [None, Some (Replicated_partition (Partition 2)), Some (Replicated_partition (Partition 7))]"
proof -
  let ?pm2 = "[(orders_4, 1), (orders_3, 7)]"
  let ?h2 = "[None, Some (Replicated_partition (Partition 2))]"
  have g: "fst (pm_get orders_3 scenario_pm) = fst (pm_get orders_3 ?pm2)"
    by (simp add: pm_get_def scenario_pm_def orders_3_def orders_4_def)
  have o: "outcome (make_partition_proxy pm_get orders_3 scenario_pm [])
             = Proxy_over (Some (Replicated_partition (Partition 7)))"
    by (simp add: make_partition_proxy_eq outcome_def adapter_of_def cell_def pm_get_def
          scenario_pm_def)
  note t = resolve_deterministic_and_stateless
         [where ?get1.0 = pm_get and ?get2.0 = pm_get and k = orders_3 and ?pm1.0 = scenario_pm
            and ?pm2.0 = ?pm2 and ?h1.0 = "[]" and ?h2.0 = ?h2, OF g]
  from t have same: "outcome (make_partition_proxy pm_get orders_3 ?pm2 ?h2)
          = Proxy_over (Some (Replicated_partition (Partition 7)))"
    using o by simp
  from t have s1: "snd (snd (make_partition_proxy pm_get orders_3 scenario_pm [])) =
             (case outcome (make_partition_proxy pm_get orders_3 scenario_pm []) of
                Raised e \<Rightarrow> []
              | Absent \<Rightarrow> []
              | Proxy_over v \<Rightarrow> [] @ [v])"
    by blast
  from t have s2: "snd (snd (make_partition_proxy pm_get orders_3 ?pm2 ?h2)) =
             (case outcome (make_partition_proxy pm_get orders_3 ?pm2 ?h2) of
                Raised e \<Rightarrow> ?h2
              | Absent \<Rightarrow> ?h2
              | Proxy_over v \<Rightarrow> ?h2 @ [v])"
    by blast
  from s1 o have "snd (snd (make_partition_proxy pm_get orders_3 scenario_pm []))
       = [Some (Replicated_partition (Partition 7))]"
    by simp
  moreover from s2 same have "snd (snd (make_partition_proxy pm_get orders_3 ?pm2 ?h2))
       = [None, Some (Replicated_partition (Partition 2)), Some (Replicated_partition (Partition 7))]"
    by simp
  ultimately show ?thesis using g o same by simp
qed

section \<open>Resolving the same identifier twice\<close>

text \<open>
  C7. Resolve an identifier, and resolve it again while the registry still gives the
  answer it gave the first time. When the first call returned a proxy, the second call
  returns a proxy too. The two proxies own adapters at two different addresses, each
  allocated by its own call (the address was not in use when that call began), and
  after both calls each proxy leads to its own adapter around the common handle.
  Destroying either proxy deletes its own adapter only: the other proxy still leads to
  its adapter.
\<close>

theorem resolve_twice_independent_proxies:
  assumes first: "make_partition_proxy get k pm h = (Inr (Some p1), pm1, h1)"
    and same: "fst (get k pm1) = fst (get k pm)"
  shows "\<exists>p2 pm2 h2 a1 a2 handle.
           make_partition_proxy get k pm1 h1 = (Inr (Some p2), pm2, h2)
           \<and> impl_ptr p1 = Some a1 \<and> impl_ptr p2 = Some a2 \<and> a1 \<noteq> a2
           \<and> cell h a1 = None \<and> cell h1 a2 = None
           \<and> fst (get k pm) = Inr handle
           \<and> adapter_of h2 p1 = Some (Replicated_partition handle)
           \<and> adapter_of h2 p2 = Some (Replicated_partition handle)
           \<and> adapter_of (destroy p1 h2) p1 = None
           \<and> adapter_of (destroy p1 h2) p2 = Some (Replicated_partition handle)
           \<and> adapter_of (destroy p2 h2) p2 = None
           \<and> adapter_of (destroy p2 h2) p1 = Some (Replicated_partition handle)"
proof (cases "fst (get k pm)")
  case (Inl e)
  with first show ?thesis by (simp add: make_partition_proxy_eq)
next
  case (Inr handle)
  show ?thesis
  proof (cases handle)
    case Nullptr
    with Inr first show ?thesis by (simp add: make_partition_proxy_eq)
  next
    case (Partition n)
    let ?v = "Some (Replicated_partition (Partition n))"
    from Inr Partition first
    have p1: "p1 = Partition_proxy (Some (length h))" and h1: "h1 = h @ [?v]"
      by (simp_all add: make_partition_proxy_eq)
    from Inr Partition same
    have second: "make_partition_proxy get k pm1 h1
        = (Inr (Some (Partition_proxy (Some (length h1)))), snd (get k pm1), h1 @ [?v])"
      by (simp add: make_partition_proxy_eq)
    have fresh: "cell h (length h) = None" "cell h1 (length h1) = None"
      by (simp_all add: cell_def)
    have both: "adapter_of (h1 @ [?v]) p1 = ?v"
      "adapter_of (h1 @ [?v]) (Partition_proxy (Some (length h1))) = ?v"
      by (simp_all add: adapter_of_def cell_def p1 h1 nth_append)
    have d1: "adapter_of (destroy p1 (h1 @ [?v])) p1 = None"
      "adapter_of (destroy p1 (h1 @ [?v])) (Partition_proxy (Some (length h1))) = ?v"
      by (simp_all add: adapter_of_def destroy_def cell_def p1 h1 nth_append)
    have d2: "adapter_of (destroy (Partition_proxy (Some (length h1))) (h1 @ [?v]))
                (Partition_proxy (Some (length h1))) = None"
      "adapter_of (destroy (Partition_proxy (Some (length h1))) (h1 @ [?v])) p1 = ?v"
      by (simp_all add: adapter_of_def destroy_def cell_def p1 h1 nth_append)
    have ne: "length h \<noteq> length h1"
      by (simp add: h1)
    from second fresh both d1 d2 ne Inr Partition show ?thesis
      by (simp add: p1)
  qed
qed

theorem resolve_twice_independent_proxies_witness:
  "make_partition_proxy pm_get orders_3 scenario_pm []
     = (Inr (Some (Partition_proxy (Some 0))), scenario_pm, [Some (Replicated_partition (Partition 7))])
   \<and> fst (pm_get orders_3 scenario_pm) = fst (pm_get orders_3 scenario_pm)
   \<and> (\<exists>p2 pm2 h2 a2.
         make_partition_proxy pm_get orders_3 scenario_pm [Some (Replicated_partition (Partition 7))]
           = (Inr (Some p2), pm2, h2)
         \<and> impl_ptr p2 = Some a2 \<and> 0 \<noteq> a2
         \<and> adapter_of (destroy p2 h2) (Partition_proxy (Some 0))
             = Some (Replicated_partition (Partition 7))
         \<and> adapter_of (destroy (Partition_proxy (Some 0)) h2) p2
             = Some (Replicated_partition (Partition 7)))"
proof -
  have g: "pm_get orders_3 scenario_pm = (Inr (Partition 7), scenario_pm)"
    by (simp add: pm_get_def scenario_pm_def)
  have first: "make_partition_proxy pm_get orders_3 scenario_pm []
     = (Inr (Some (Partition_proxy (Some 0))), scenario_pm, [Some (Replicated_partition (Partition 7))])"
    by (simp add: make_partition_proxy_eq g)
  have same: "fst (pm_get orders_3 scenario_pm) = fst (pm_get orders_3 scenario_pm)"
    by simp
  from resolve_twice_independent_proxies
         [where get = pm_get and k = orders_3 and pm = scenario_pm and h = "[]", OF first same]
  obtain p2 pm2 h2 a1 a2 handle where r:
    "make_partition_proxy pm_get orders_3 scenario_pm [Some (Replicated_partition (Partition 7))]
       = (Inr (Some p2), pm2, h2)"
    "impl_ptr (Partition_proxy (Some 0)) = Some a1" "impl_ptr p2 = Some a2" "a1 \<noteq> a2"
    "fst (pm_get orders_3 scenario_pm) = Inr handle"
    "adapter_of (destroy (Partition_proxy (Some 0)) h2) p2 = Some (Replicated_partition handle)"
    "adapter_of (destroy p2 h2) (Partition_proxy (Some 0)) = Some (Replicated_partition handle)"
    by blast
  from r(2) have "a1 = 0" by simp
  moreover from r(5) g have "handle = Partition 7" by simp
  ultimately show ?thesis using first r by auto
qed

section \<open>The identifier is handed to the registry as it is\<close>

text \<open>
  C8. For every identifier, well-formed or not, \<open>make_partition_proxy\<close> makes exactly
  one lookup and makes it with the identifier it received: run against a lookup that
  records its calls, the record grows by that identifier and by nothing else, the
  registry is left as that single lookup leaves it, and the result is the one obtained
  without the recording. The factory inspects no field of the identifier: the result is
  decided by the reply of the lookup alone.
\<close>

theorem resolve_forwards_identifier_once:
  "fst (snd (make_partition_proxy (recording get) k (log, pm) h)) = (log @ [k], snd (get k pm))
   \<and> fst (make_partition_proxy (recording get) k (log, pm) h) = fst (make_partition_proxy get k pm h)
   \<and> fst (make_partition_proxy get k pm h) =
       (case fst (get k pm) of
          Inl e \<Rightarrow> Inl e
        | Inr Nullptr \<Rightarrow> Inr None
        | Inr (Partition n) \<Rightarrow> Inr (Some (Partition_proxy (Some (length h)))))"
proof -
  have r: "fst (recording get k (log, pm)) = fst (get k pm)"
    "snd (recording get k (log, pm)) = (log @ [k], snd (get k pm))"
    by (simp_all add: recording_def split: prod.split)
  show ?thesis
    unfolding make_partition_proxy_eq [of "recording get"] make_partition_proxy_eq [of get] r
    by (simp split: sum.split partition_ptr.split)
qed

theorem resolve_forwards_identifier_once_witness:
  "make_partition_proxy (recording pm_get)
      \<lparr>ktp_ns = [], ktp_topic = ''orders'', ktp_partition = - 1\<rparr>
      ([orders_4], [(\<lparr>ktp_ns = [], ktp_topic = ''orders'', ktp_partition = - 1\<rparr>, 5)]) []
    = (Inr (Some (Partition_proxy (Some 0))),
       ([orders_4, \<lparr>ktp_ns = [], ktp_topic = ''orders'', ktp_partition = - 1\<rparr>],
        [(\<lparr>ktp_ns = [], ktp_topic = ''orders'', ktp_partition = - 1\<rparr>, 5)]),
       [Some (Replicated_partition (Partition 5))])"
proof -
  let ?k = "\<lparr>ktp_ns = [], ktp_topic = ''orders'', ktp_partition = - 1\<rparr>"
  let ?pm = "[(?k, 5)]"
  have g: "pm_get ?k ?pm = (Inr (Partition 5), ?pm)"
    by (simp add: pm_get_def)
  have "snd (snd (make_partition_proxy (recording pm_get) ?k ([orders_4], ?pm) []))
          = [Some (Replicated_partition (Partition 5))]"
    by (simp add: make_partition_proxy_eq recording_def g)
  with resolve_forwards_identifier_once
         [where get = pm_get and k = ?k and log = "[orders_4]" and pm = ?pm and h = "[]"]
  show ?thesis
    by (simp add: prod_eq_iff g)
qed

section \<open>The null handle\<close>

text \<open>
  C10. Whenever the lookup replies, the optional that \<open>make_partition_proxy\<close> returns is
  engaged if and only if the handle is not null, and it is empty if and only if the
  handle is null. The branch that constructs the adapter is taken for a non-null handle
  only: a call never adds an adapter around the null handle to the free store, and on
  the null handle it leaves the free store as it was.
\<close>

theorem resolve_engaged_iff_handle_non_null:
  assumes "fst (get k pm) = Inr handle"
  shows "((\<exists>p. fst (make_partition_proxy get k pm h) = Inr (Some p)) = (handle \<noteq> Nullptr))
         \<and> ((fst (make_partition_proxy get k pm h) = Inr None) = (handle = Nullptr))
         \<and> count_list (snd (snd (make_partition_proxy get k pm h))) (Some (Replicated_partition Nullptr))
             = count_list h (Some (Replicated_partition Nullptr))
         \<and> (handle = Nullptr \<longrightarrow> snd (snd (make_partition_proxy get k pm h)) = h)"
  using assms by (cases handle) (simp_all add: make_partition_proxy_eq)

theorem resolve_engaged_iff_handle_non_null_witness:
  "fst (pm_get orders_4 scenario_pm) = Inr Nullptr
   \<and> fst (make_partition_proxy pm_get orders_4 scenario_pm [Some (Replicated_partition (Partition 7))])
       = Inr None
   \<and> snd (snd (make_partition_proxy pm_get orders_4 scenario_pm [Some (Replicated_partition (Partition 7))]))
       = [Some (Replicated_partition (Partition 7))]"
proof -
  have g: "fst (pm_get orders_4 scenario_pm) = Inr Nullptr"
    by (simp add: pm_get_def scenario_pm_def orders_3_def orders_4_def)
  from resolve_engaged_iff_handle_non_null
         [where get = pm_get and k = orders_4 and pm = scenario_pm
            and h = "[Some (Replicated_partition (Partition 7))]", OF g]
  have "fst (make_partition_proxy pm_get orders_4 scenario_pm [Some (Replicated_partition (Partition 7))])
          = Inr None"
    and "snd (snd (make_partition_proxy pm_get orders_4 scenario_pm [Some (Replicated_partition (Partition 7))]))
          = [Some (Replicated_partition (Partition 7))]"
    by simp_all
  with g show ?thesis by simp
qed

end
